theory Spec2Isabelle
  imports Complex_Main
begin

section \<open>THcTrigDet: the mock detector holding trigger data\<close>

text \<open>
  The embedding follows \<^verbatim>\<open>src/THcTrigDet.cxx\<close>. The object is a record of its data
  members, a member function takes the object and gives the object back, and the three
  ways a C++ call can end are kept apart: it returns, it throws, or it runs into an
  access that C++ gives no meaning to (a write outside a fixed array).
\<close>

subsection \<open>Data members\<close>

text \<open>
  Modelled from the spec: the header \<^verbatim>\<open>THcTrigDet.h\<close> is not among the sources. It
  declares the capacities of the fixed arrays; the spec (section 4.2) and the class
  comment of the source ("Can hold up to 100 ADC and TDC channels") give 100 for each.
\<close>

definition fMaxAdcChannels :: nat where
  "fMaxAdcChannels = 100"

definition fMaxTdcChannels :: nat where
  "fMaxTdcChannels = 100"

text \<open>
  Modelled from the spec: \<^verbatim>\<open>THaAnalysisObject::EStatus\<close> is declared by the analyzer
  framework, outside the sources, and the spec only speaks of initialization that
  succeeds or fails. The source names \<open>kOK\<close> and \<open>kInitError\<close>; \<open>kOK\<close> is the value that
  tests false in \<^verbatim>\<open>if (status)\<close>. No property below depends on the other values.
\<close>

datatype EStatus = kOK | kNotinit | kInitError | kFileError

text \<open>
  Modelled from the spec: \<^verbatim>\<open>THcTrigRawHit\<close> is not among the sources. Section 3 of the
  spec gives a raw hit a plane, a 1-based channel ("bar") number and accessors for a
  value sample, a pedestal sample and a multiplicity, each taking a sub-signal index
  (\<open>GetData\<close> takes the sample number too). The accessors are taken as total.
\<close>

record THcTrigRawHit =
  fPlane :: int
  fCounter :: int
  GetData :: "nat \<Rightarrow> nat \<Rightarrow> real"
  GetAdcPedestal :: "nat \<Rightarrow> real"
  GetMultiplicity :: "nat \<Rightarrow> int"

text \<open>
  The data members of the class (constructor, lines 112-120). The element types of the
  arrays come from section 3 of the spec (value and pedestal are floating point numbers,
  multiplicity is an integer); the numbers are only stored and copied, never computed
  with, so they are modelled as \<open>real\<close> and \<open>int\<close>. An \<^verbatim>\<open>Int_t\<close> is an \<open>int\<close>: the only
  arithmetic on one is \<^verbatim>\<open>fCounter-1\<close>, used as an array index, which can overflow only
  at the least \<^verbatim>\<open>Int_t\<close>, where the index is outside the array in any case; the loop
  counters stay below their bounds. \<open>fStatus\<close> is the member of the base class that
  \<open>Init\<close> assigns.
\<close>

record THcTrigDet =
  fKwPrefix :: string
  fNumAdc :: int
  fNumTdc :: int
  fAdcNames :: "string list"
  fTdcNames :: "string list"
  fAdcVal :: "real list"
  fAdcPedestal :: "real list"
  fAdcMultiplicity :: "int list"
  fTdcVal :: "real list"
  fTdcMultiplicity :: "int list"
  fStatus :: EStatus

text \<open>An object whose arrays have the declared capacities.\<close>

definition well_sized :: "THcTrigDet \<Rightarrow> bool" where
  "well_sized s =
     (length (fAdcVal s) = fMaxAdcChannels \<and>
      length (fAdcPedestal s) = fMaxAdcChannels \<and>
      length (fAdcMultiplicity s) = fMaxAdcChannels \<and>
      length (fTdcVal s) = fMaxTdcChannels \<and>
      length (fTdcMultiplicity s) = fMaxTdcChannels)"

text \<open>The configuration: the channel counts and the ordered name lists.\<close>

definition config :: "THcTrigDet \<Rightarrow> int \<times> int \<times> string list \<times> string list" where
  "config s = (fNumAdc s, fNumTdc s, fAdcNames s, fTdcNames s)"

subsection \<open>How a call ends\<close>

datatype exn = out_of_range string

text \<open>
  \<open>Returned r s\<close>: the call returns \<open>r\<close> and leaves the object as \<open>s\<close>.
  \<open>Thrown e s\<close>: the call throws \<open>e\<close>; the object is left as \<open>s\<close>.
  \<open>UndefinedBehaviour\<close>: the call writes outside an array; nothing is known of the
  object afterwards.
\<close>

datatype 'a outcome =
    Returned 'a THcTrigDet
  | Thrown exn THcTrigDet
  | UndefinedBehaviour

subsection \<open>Writing a C array\<close>

text \<open>
  \<^verbatim>\<open>a[i] = v\<close> on an array of fixed size: defined when \<open>0 \<le> i < size\<close>, and \<open>None\<close>
  otherwise. The source never checks an index itself.
\<close>

definition array_write :: "'a list \<Rightarrow> int \<Rightarrow> 'a \<Rightarrow> 'a list option" where
  "array_write a i v =
     (if 0 \<le> i \<and> i < int (length a) then Some (a[nat i := v]) else None)"

text \<open>The loop \<^verbatim>\<open>for (int i=i0; i<n; ++i) a[i] = v;\<close>\<close>

function array_fill :: "int \<Rightarrow> int \<Rightarrow> 'a \<Rightarrow> 'a list \<Rightarrow> 'a list option" where
  "array_fill i n v a =
     (if i < n then
        (case array_write a i v of
           None \<Rightarrow> None
         | Some a' \<Rightarrow> array_fill (i + 1) n v a')
      else Some a)"
  by pat_completeness auto
termination
  by (relation "measure (\<lambda>(i, n, v, a). nat (n - i))") auto

declare array_fill.simps [simp del]

subsection \<open>Clear (lines 159-165)\<close>

text \<open>
  \<^verbatim>\<open>THaAnalysisObject::Clear(opt)\<close> belongs to the base class and has no access to the
  members modelled here. The two loops follow.
\<close>

definition Clear :: "THcTrigDet \<Rightarrow> THcTrigDet option" where
  "Clear s =
     (case array_fill 0 (fNumAdc s) 0 (fAdcVal s) of
        None \<Rightarrow> None
      | Some a \<Rightarrow>
          (let s1 = s\<lparr>fAdcVal := a\<rparr> in
           case array_fill 0 (fNumTdc s1) 0 (fTdcVal s1) of
             None \<Rightarrow> None
           | Some t \<Rightarrow> Some (s1\<lparr>fTdcVal := t\<rparr>)))"

subsection \<open>Decode (lines 168-196)\<close>

definition plane_message :: string where
  "plane_message = ''`THcTrigDet::Decode`: only planes `1` and `2` available!''"

text \<open>The body of the loop, for one hit.\<close>

definition Decode_hit :: "THcTrigRawHit \<Rightarrow> THcTrigDet \<Rightarrow> unit outcome" where
  "Decode_hit hit s =
     (if fPlane hit = 1 then
        (case array_write (fAdcVal s) (fCounter hit - 1) (GetData hit 0 0) of
           None \<Rightarrow> UndefinedBehaviour
         | Some v \<Rightarrow>
        (case array_write (fAdcPedestal s) (fCounter hit - 1) (GetAdcPedestal hit 0) of
           None \<Rightarrow> UndefinedBehaviour
         | Some p \<Rightarrow>
        (case array_write (fAdcMultiplicity s) (fCounter hit - 1) (GetMultiplicity hit 0) of
           None \<Rightarrow> UndefinedBehaviour
         | Some m \<Rightarrow>
             Returned () (s\<lparr>fAdcVal := v, fAdcPedestal := p, fAdcMultiplicity := m\<rparr>))))
      else if fPlane hit = 2 then
        (case array_write (fTdcVal s) (fCounter hit - 1) (GetData hit 1 0) of
           None \<Rightarrow> UndefinedBehaviour
         | Some v \<Rightarrow>
        (case array_write (fTdcMultiplicity s) (fCounter hit - 1) (GetMultiplicity hit 1) of
           None \<Rightarrow> UndefinedBehaviour
         | Some m \<Rightarrow>
             Returned () (s\<lparr>fTdcVal := v, fTdcMultiplicity := m\<rparr>)))
      else Thrown (out_of_range plane_message) s)"

text \<open>
  The \<^verbatim>\<open>while (iHit < numHits)\<close> loop over the hit list that \<^verbatim>\<open>DecodeToHitList\<close>
  filled: the hits are taken in order, and the loop ends at the first hit whose
  body does not return.
\<close>

fun Decode_loop :: "THcTrigRawHit list \<Rightarrow> THcTrigDet \<Rightarrow> unit outcome" where
  "Decode_loop [] s = Returned () s"
| "Decode_loop (hit # hits) s =
     (case Decode_hit hit s of
        Returned _ s' \<Rightarrow> Decode_loop hits s'
      | Thrown e s' \<Rightarrow> Thrown e s'
      | UndefinedBehaviour \<Rightarrow> UndefinedBehaviour)"

definition Decode :: "THcTrigRawHit list \<Rightarrow> THcTrigDet \<Rightarrow> int outcome" where
  "Decode hits s =
     (case Decode_loop hits s of
        Returned _ s' \<Rightarrow> Returned 0 s'
      | Thrown e s' \<Rightarrow> Thrown e s'
      | UndefinedBehaviour \<Rightarrow> UndefinedBehaviour)"

subsection \<open>Init (lines 126-156) and Setup (lines 199-204)\<close>

text \<open>\<^verbatim>\<open>::tolower\<close> and \<^verbatim>\<open>::toupper\<close> on the bytes of a string, in the C locale.\<close>

definition tolower :: "char \<Rightarrow> char" where
  "tolower c =
     (if (65::nat) \<le> of_char c \<and> of_char c \<le> (90::nat)
      then char_of (of_char c + (32::nat)) else c)"

definition toupper :: "char \<Rightarrow> char" where
  "toupper c =
     (if (97::nat) \<le> of_char c \<and> of_char c \<le> (122::nat)
      then char_of (of_char c - (32::nat)) else c)"

text \<open>
  \<open>Setup\<close> reads the name of the apparatus (\<^verbatim>\<open>GetApparatus()->GetName()\<close>), here its
  first argument; \<open>description\<close> is not used.
\<close>

definition Setup :: "string \<Rightarrow> string \<Rightarrow> string \<Rightarrow> THcTrigDet \<Rightarrow> THcTrigDet" where
  "Setup apparatus name description s =
     s\<lparr>fKwPrefix := map tolower (apparatus @ ''_'' @ name)\<rparr>"

text \<open>
  What \<open>Init\<close> takes from outside the class: the names of the apparatus and of the
  detector, its title, the initializer of the base class (\<^verbatim>\<open>THaDetector::Init\<close>, which
  according to the comment on line 135 calls \<open>ReadDatabase\<close> and \<open>DefineVariables\<close>) and
  \<^verbatim>\<open>gHcDetectorMap->FillMap\<close>. \<^verbatim>\<open>InitHitList\<close> prepares the hit list and does not
  touch the members modelled here.
\<close>

record Init_env =
  GetApparatusName :: string
  GetName :: string
  GetTitle :: string
  THaDetector_Init :: "THcTrigDet \<Rightarrow> EStatus outcome"
  FillMap :: "string \<Rightarrow> int"

definition Init :: "Init_env \<Rightarrow> THcTrigDet \<Rightarrow> EStatus outcome" where
  "Init env s =
     (let s1 = Setup (GetApparatusName env) (GetName env) (GetTitle env) s in
      case array_fill 0 (int fMaxAdcChannels) (- 1) (fAdcVal s1) of
        None \<Rightarrow> UndefinedBehaviour
      | Some a \<Rightarrow>
     (let s2 = s1\<lparr>fAdcVal := a\<rparr> in
      case array_fill 0 (int fMaxTdcChannels) (- 1) (fTdcVal s2) of
        None \<Rightarrow> UndefinedBehaviour
      | Some t \<Rightarrow>
     (let s3 = s2\<lparr>fTdcVal := t\<rparr> in
      case THaDetector_Init env s3 of
        UndefinedBehaviour \<Rightarrow> UndefinedBehaviour
      | Thrown e s4 \<Rightarrow> Thrown e s4
      | Returned status s4 \<Rightarrow>
          if status \<noteq> kOK then Returned status (s4\<lparr>fStatus := status\<rparr>)
          else
            (let EngineDID = map toupper (take 1 (GetApparatusName env) @ GetName env) in
             if FillMap env EngineDID < 0 then Returned kInitError s4
             else Returned kOK (s4\<lparr>fStatus := kOK\<rparr>)))))"

subsection \<open>Notions used to state the properties\<close>

text \<open>The hit \<open>h\<close> addresses slot \<open>i\<close> of the arrays of plane \<open>p\<close>.\<close>

definition addresses :: "THcTrigRawHit \<Rightarrow> int \<Rightarrow> nat \<Rightarrow> bool" where
  "addresses h p i = (fPlane h = p \<and> fCounter h - 1 = int i)"

text \<open>The last hit of the list, in input order, that addresses slot \<open>i\<close> of plane \<open>p\<close>.\<close>

fun last_hit :: "int \<Rightarrow> nat \<Rightarrow> THcTrigRawHit list \<Rightarrow> THcTrigRawHit option" where
  "last_hit p i [] = None"
| "last_hit p i (h # hs) =
     (case last_hit p i hs of
        Some h' \<Rightarrow> Some h'
      | None \<Rightarrow> if addresses h p i then Some h else None)"

text \<open>
  What the store holds for a channel: value, pedestal and multiplicity of slot \<open>i\<close> of
  the ADC arrays; value and multiplicity of slot \<open>i\<close> of the TDC arrays.
\<close>

definition adc_slot :: "THcTrigDet \<Rightarrow> nat \<Rightarrow> real \<times> real \<times> int" where
  "adc_slot s i = (fAdcVal s ! i, fAdcPedestal s ! i, fAdcMultiplicity s ! i)"

definition tdc_slot :: "THcTrigDet \<Rightarrow> nat \<Rightarrow> real \<times> int" where
  "tdc_slot s i = (fTdcVal s ! i, fTdcMultiplicity s ! i)"

text \<open>
  What a hit reports for each kind: for an ADC channel the first sample of sub-signal 0,
  its pedestal and its multiplicity; for a TDC channel the first sample of sub-signal 1
  and its multiplicity.
\<close>

definition adc_samples :: "THcTrigRawHit \<Rightarrow> real \<times> real \<times> int" where
  "adc_samples h = (GetData h 0 0, GetAdcPedestal h 0, GetMultiplicity h 0)"

definition tdc_samples :: "THcTrigRawHit \<Rightarrow> real \<times> int" where
  "tdc_samples h = (GetData h 1 0, GetMultiplicity h 1)"

text \<open>A hit of plane 1 or 2 whose channel number is within the capacity of the arrays.\<close>

definition within_capacity :: "THcTrigRawHit \<Rightarrow> bool" where
  "within_capacity h =
     (if fPlane h = 1 then 1 \<le> fCounter h \<and> fCounter h \<le> int fMaxAdcChannels
      else if fPlane h = 2 then 1 \<le> fCounter h \<and> fCounter h \<le> int fMaxTdcChannels
      else False)"

text \<open>A hit of plane 1 or 2 whose channel number is within the configured count.\<close>

definition within_count :: "THcTrigDet \<Rightarrow> THcTrigRawHit \<Rightarrow> bool" where
  "within_count s h =
     (if fPlane h = 1 then 1 \<le> fCounter h \<and> fCounter h \<le> fNumAdc s
      else if fPlane h = 2 then 1 \<le> fCounter h \<and> fCounter h \<le> fNumTdc s
      else False)"

text \<open>The counts of a valid configuration do not exceed the capacities (spec, section 3).\<close>

definition counts_fit :: "THcTrigDet \<Rightarrow> bool" where
  "counts_fit s =
     (fNumAdc s \<le> int fMaxAdcChannels \<and> fNumTdc s \<le> int fMaxTdcChannels)"

text \<open>
  A hit that decoding can process without leaving the arrays: on plane 1 or 2 its
  channel number is within the capacity; a hit of any other plane indexes nothing.
\<close>

definition in_arrays :: "THcTrigRawHit \<Rightarrow> bool" where
  "in_arrays h =
     (if fPlane h = 1 then 1 \<le> fCounter h \<and> fCounter h \<le> int fMaxAdcChannels
      else if fPlane h = 2 then 1 \<le> fCounter h \<and> fCounter h \<le> int fMaxTdcChannels
      else True)"

text \<open>
  What is assumed of the initializer of the base class: it returns or throws, and it
  leaves the two value arrays as they are (they are members of the derived class, and
  neither \<open>ReadDatabase\<close> nor \<open>DefineVariables\<close> assigns them).
\<close>

definition keeps_values :: "(THcTrigDet \<Rightarrow> EStatus outcome) \<Rightarrow> bool" where
  "keeps_values base =
     (\<forall>t. case base t of
            Returned _ t' \<Rightarrow> fAdcVal t' = fAdcVal t \<and> fTdcVal t' = fTdcVal t
          | Thrown _ t' \<Rightarrow> fAdcVal t' = fAdcVal t \<and> fTdcVal t' = fTdcVal t
          | UndefinedBehaviour \<Rightarrow> False)"

subsection \<open>Example objects and hits\<close>

text \<open>
  The object as the constructor leaves it (lines 112-120): empty prefix, zero counts, no
  names, and the five arrays value-initialised, that is all zero. \<open>fStatus\<close> is set by
  the base class, here to \<open>kNotinit\<close>.
\<close>

definition THcTrigDet_new :: THcTrigDet where
  "THcTrigDet_new =
     \<lparr>fKwPrefix = [], fNumAdc = 0, fNumTdc = 0, fAdcNames = [], fTdcNames = [],
      fAdcVal = replicate fMaxAdcChannels 0,
      fAdcPedestal = replicate fMaxAdcChannels 0,
      fAdcMultiplicity = replicate fMaxAdcChannels 0,
      fTdcVal = replicate fMaxTdcChannels 0,
      fTdcMultiplicity = replicate fMaxTdcChannels 0,
      fStatus = kNotinit\<rparr>"

text \<open>The constructed object with a configuration loaded: counts and name lists.\<close>

definition configured :: "int \<Rightarrow> int \<Rightarrow> string list \<Rightarrow> string list \<Rightarrow> THcTrigDet" where
  "configured na nt an tn =
     THcTrigDet_new\<lparr>fNumAdc := na, fNumTdc := nt, fAdcNames := an, fTdcNames := tn\<rparr>"

text \<open>
  A hit of plane \<open>pl\<close> and channel \<open>c\<close>. For sub-signal 0 it reports the sample \<open>adc\<close>,
  the pedestal \<open>ped\<close> and the multiplicity \<open>adcm\<close>; for sub-signal 1 the sample \<open>tdc\<close>
  and the multiplicity \<open>tdcm\<close>.
\<close>

definition hit :: "int \<Rightarrow> int \<Rightarrow> real \<Rightarrow> real \<Rightarrow> int \<Rightarrow> real \<Rightarrow> int \<Rightarrow> THcTrigRawHit" where
  "hit pl c adc ped adcm tdc tdcm =
     \<lparr>fPlane = pl, fCounter = c,
      GetData = (\<lambda>signal sample. if sample = 0 then (if signal = 0 then adc else tdc) else 0),
      GetAdcPedestal = (\<lambda>signal. if signal = 0 then ped else 0),
      GetMultiplicity = (\<lambda>signal. if signal = 0 then adcm else tdcm)\<rparr>"

text \<open>
  An object with two ADC channels and one TDC channel configured, as the two loops of
  \<open>Init\<close> leave the arrays: every value slot holds the sentinel.
\<close>

definition initialized :: THcTrigDet where
  "initialized =
     (configured 2 1 [''x'', ''y''] [''z''])
       \<lparr>fAdcVal := replicate fMaxAdcChannels (- 1),
        fTdcVal := replicate fMaxTdcChannels (- 1)\<rparr>"

text \<open>
  Surroundings for \<open>Init\<close>: apparatus \<open>H\<close>, detector \<open>trig\<close>, an initializer of the base
  class that loads two ADC names and one TDC name and reports \<open>kOK\<close>, and a detector map
  that is filled without error.
\<close>

definition example_env :: Init_env where
  "example_env =
     \<lparr>GetApparatusName = ''H'', GetName = ''trig'', GetTitle = ''trigger data'',
      THaDetector_Init =
        (\<lambda>t. Returned kOK
           (t\<lparr>fNumAdc := 2, fNumTdc := 1, fAdcNames := [''x'', ''y''], fTdcNames := [''z'']\<rparr>)),
      FillMap = (\<lambda>did. 0)\<rparr>"

section \<open>Lemmas about the operations\<close>

subsection \<open>Array writes and the filling loop\<close>

lemma array_write_in:
  "0 \<le> i \<Longrightarrow> i < int (length a) \<Longrightarrow> array_write a i v = Some (a[nat i := v])"
  by (simp add: array_write_def)

lemma array_write_out:
  "i < 0 \<or> int (length a) \<le> i \<Longrightarrow> array_write a i v = None"
  by (auto simp: array_write_def)

lemma array_fill_done: "n \<le> i \<Longrightarrow> array_fill i n v a = Some a"
  by (simp add: array_fill.simps)

lemma array_fill_in:
  "0 \<le> i \<Longrightarrow> n \<le> int (length a) \<Longrightarrow>
   \<exists>a'. array_fill i n v a = Some a' \<and> length a' = length a \<and>
     (\<forall>k < length a. a' ! k = (if i \<le> int k \<and> int k < n then v else a ! k))"
proof (induction i n v a rule: array_fill.induct)
  case (1 i n v a)
  show ?case
  proof (cases "i < n")
    case False
    then have "array_fill i n v a = Some a" by (simp add: array_fill_done)
    with False show ?thesis by auto
  next
    case True
    with 1 have w: "array_write a i v = Some (a[nat i := v])"
      by (simp add: array_write_in)
    from 1(1)[OF True w] 1(2,3)
    obtain a' where a': "array_fill (i + 1) n v (a[nat i := v]) = Some a'"
      "length a' = length a"
      "\<forall>k < length a. a' ! k = (if i + 1 \<le> int k \<and> int k < n then v else (a[nat i := v]) ! k)"
      by auto
    have "array_fill i n v a = Some a'"
      using True w a'(1) by (subst array_fill.simps) simp
    moreover have "\<forall>k < length a. a' ! k = (if i \<le> int k \<and> int k < n then v else a ! k)"
    proof (intro allI impI)
      fix k assume k: "k < length a"
      show "a' ! k = (if i \<le> int k \<and> int k < n then v else a ! k)"
      proof (cases "int k = i")
        case True
        then have "nat i = k" by simp
        with a'(3) k True \<open>i < n\<close> show ?thesis by simp
      next
        case False
        then have "nat i \<noteq> k" using 1(2) by auto
        with a'(3) k False show ?thesis by auto
      qed
    qed
    ultimately show ?thesis using a'(2) by blast
  qed
qed

lemma array_fill_out:
  "0 \<le> i \<Longrightarrow> i < n \<Longrightarrow> int (length a) < n \<Longrightarrow> array_fill i n v a = None"
proof (induction i n v a rule: array_fill.induct)
  case (1 i n v a)
  show ?case
  proof (cases "i < int (length a)")
    case False
    then have "array_write a i v = None" by (simp add: array_write_out)
    with 1(3) show ?thesis by (subst array_fill.simps) simp
  next
    case True
    with 1 have w: "array_write a i v = Some (a[nat i := v])"
      by (simp add: array_write_in)
    have "array_fill (i + 1) n v (a[nat i := v]) = None"
      using 1(1)[OF 1(3) w] 1(2,3,4) True by simp
    with w 1(3) show ?thesis by (subst array_fill.simps) simp
  qed
qed


subsection \<open>Clear\<close>

lemma Clear_in:
  assumes "fNumAdc s \<le> int (length (fAdcVal s))" and "fNumTdc s \<le> int (length (fTdcVal s))"
  shows "\<exists>a t. Clear s = Some (s\<lparr>fAdcVal := a, fTdcVal := t\<rparr>) \<and>
           length a = length (fAdcVal s) \<and> length t = length (fTdcVal s) \<and>
           (\<forall>k < length (fAdcVal s). a ! k = (if int k < fNumAdc s then 0 else fAdcVal s ! k)) \<and>
           (\<forall>k < length (fTdcVal s). t ! k = (if int k < fNumTdc s then 0 else fTdcVal s ! k))"
proof -
  from array_fill_in [of 0 "fNumAdc s" "fAdcVal s" 0] assms(1)
  obtain a where a: "array_fill 0 (fNumAdc s) 0 (fAdcVal s) = Some a"
    "length a = length (fAdcVal s)"
    "\<forall>k < length (fAdcVal s). a ! k = (if int k < fNumAdc s then 0 else fAdcVal s ! k)"
    by auto
  from array_fill_in [of 0 "fNumTdc s" "fTdcVal s" 0] assms(2)
  obtain t where t: "array_fill 0 (fNumTdc s) 0 (fTdcVal s) = Some t"
    "length t = length (fTdcVal s)"
    "\<forall>k < length (fTdcVal s). t ! k = (if int k < fNumTdc s then 0 else fTdcVal s ! k)"
    by auto
  have "Clear s = Some (s\<lparr>fAdcVal := a, fTdcVal := t\<rparr>)"
    using a(1) t(1) by (simp add: Clear_def)
  with a(2,3) t(2,3) show ?thesis by blast
qed

lemma Clear_out:
  assumes "int (length (fAdcVal s)) < fNumAdc s \<or> int (length (fTdcVal s)) < fNumTdc s"
  shows "Clear s = None"
proof (cases "int (length (fAdcVal s)) < fNumAdc s")
  case True
  then have "array_fill 0 (fNumAdc s) 0 (fAdcVal s) = None"
    by (intro array_fill_out) auto
  then show ?thesis by (simp add: Clear_def)
next
  case False
  with assms have "int (length (fTdcVal s)) < fNumTdc s" by simp
  then have "array_fill 0 (fNumTdc s) 0 (fTdcVal s) = None"
    by (intro array_fill_out) auto
  then show ?thesis by (simp add: Clear_def Let_def split: option.splits)
qed

subsection \<open>Decode\<close>

lemma Decode_hit_adc:
  assumes "well_sized s" and "fPlane h = 1"
    and "1 \<le> fCounter h" and "fCounter h \<le> int fMaxAdcChannels"
  shows "Decode_hit h s = Returned ()
           (s\<lparr>fAdcVal := (fAdcVal s)[nat (fCounter h - 1) := GetData h 0 0],
              fAdcPedestal := (fAdcPedestal s)[nat (fCounter h - 1) := GetAdcPedestal h 0],
              fAdcMultiplicity := (fAdcMultiplicity s)[nat (fCounter h - 1) := GetMultiplicity h 0]\<rparr>)"
  using assms by (simp add: Decode_hit_def well_sized_def array_write_def)

lemma Decode_hit_tdc:
  assumes "well_sized s" and "fPlane h = 2"
    and "1 \<le> fCounter h" and "fCounter h \<le> int fMaxTdcChannels"
  shows "Decode_hit h s = Returned ()
           (s\<lparr>fTdcVal := (fTdcVal s)[nat (fCounter h - 1) := GetData h 1 0],
              fTdcMultiplicity := (fTdcMultiplicity s)[nat (fCounter h - 1) := GetMultiplicity h 1]\<rparr>)"
  using assms by (simp add: Decode_hit_def well_sized_def array_write_def)

lemma Decode_hit_other:
  assumes "fPlane h \<noteq> 1" and "fPlane h \<noteq> 2"
  shows "Decode_hit h s = Thrown (out_of_range plane_message) s"
  using assms by (simp add: Decode_hit_def)

lemma Decode_hit_within:
  assumes "well_sized s" and "within_capacity h"
  shows "\<exists>s1. Decode_hit h s = Returned () s1 \<and> well_sized s1 \<and>
           (\<forall>i < fMaxAdcChannels.
              adc_slot s1 i = (if addresses h 1 i then adc_samples h else adc_slot s i)) \<and>
           (\<forall>i < fMaxTdcChannels.
              tdc_slot s1 i = (if addresses h 2 i then tdc_samples h else tdc_slot s i))"
proof (cases "fPlane h = 1")
  case True
  with assms(2) have c: "1 \<le> fCounter h" "fCounter h \<le> int fMaxAdcChannels"
    by (simp_all add: within_capacity_def)
  have idx: "\<And>i. (fCounter h - 1 = int i) = (nat (fCounter h - 1) = i)"
    using c(1) by auto
  show ?thesis
    using Decode_hit_adc [OF assms(1) True c] assms(1) True
    by (auto simp: well_sized_def adc_slot_def tdc_slot_def addresses_def adc_samples_def
        idx nth_list_update)
next
  case False
  with assms(2) have p: "fPlane h = 2" and c: "1 \<le> fCounter h" "fCounter h \<le> int fMaxTdcChannels"
    by (simp_all add: within_capacity_def split: if_splits)
  have idx: "\<And>i. (fCounter h - 1 = int i) = (nat (fCounter h - 1) = i)"
    using c(1) by auto
  show ?thesis
    using Decode_hit_tdc [OF assms(1) p c] assms(1) p
    by (auto simp: well_sized_def adc_slot_def tdc_slot_def addresses_def tdc_samples_def
        idx nth_list_update)
qed

lemma Decode_loop_within:
  assumes "well_sized s" and "\<forall>h \<in> set hits. within_capacity h"
  shows "\<exists>s'. Decode_loop hits s = Returned () s' \<and> well_sized s' \<and>
           (\<forall>i < fMaxAdcChannels. adc_slot s' i =
              (case last_hit 1 i hits of None \<Rightarrow> adc_slot s i | Some h \<Rightarrow> adc_samples h)) \<and>
           (\<forall>i < fMaxTdcChannels. tdc_slot s' i =
              (case last_hit 2 i hits of None \<Rightarrow> tdc_slot s i | Some h \<Rightarrow> tdc_samples h))"
  using assms
proof (induction hits arbitrary: s)
  case Nil
  then show ?case by simp
next
  case (Cons h hits)
  from Cons.prems have wh: "within_capacity h" and rest: "\<forall>h \<in> set hits. within_capacity h"
    by simp_all
  from Decode_hit_within [OF Cons.prems(1) wh]
  obtain s1 where s1: "Decode_hit h s = Returned () s1" "well_sized s1"
    "\<forall>i < fMaxAdcChannels.
       adc_slot s1 i = (if addresses h 1 i then adc_samples h else adc_slot s i)"
    "\<forall>i < fMaxTdcChannels.
       tdc_slot s1 i = (if addresses h 2 i then tdc_samples h else tdc_slot s i)"
    by blast
  from Cons.IH [OF s1(2) rest]
  obtain s' where s': "Decode_loop hits s1 = Returned () s'" "well_sized s'"
    "\<forall>i < fMaxAdcChannels. adc_slot s' i =
       (case last_hit 1 i hits of None \<Rightarrow> adc_slot s1 i | Some h \<Rightarrow> adc_samples h)"
    "\<forall>i < fMaxTdcChannels. tdc_slot s' i =
       (case last_hit 2 i hits of None \<Rightarrow> tdc_slot s1 i | Some h \<Rightarrow> tdc_samples h)"
    by blast
  have "Decode_loop (h # hits) s = Returned () s'"
    using s1(1) s'(1) by simp
  moreover have "\<forall>i < fMaxAdcChannels. adc_slot s' i =
       (case last_hit 1 i (h # hits) of None \<Rightarrow> adc_slot s i | Some h \<Rightarrow> adc_samples h)"
    using s'(3) s1(3) by (simp split: option.splits)
  moreover have "\<forall>i < fMaxTdcChannels. tdc_slot s' i =
       (case last_hit 2 i (h # hits) of None \<Rightarrow> tdc_slot s i | Some h \<Rightarrow> tdc_samples h)"
    using s'(4) s1(4) by (simp split: option.splits)
  ultimately show ?case using s'(2) by blast
qed

lemma Decode_loop_append:
  "Decode_loop (xs @ ys) s =
     (case Decode_loop xs s of
        Returned _ s' \<Rightarrow> Decode_loop ys s'
      | Thrown e s' \<Rightarrow> Thrown e s'
      | UndefinedBehaviour \<Rightarrow> UndefinedBehaviour)"
  by (induction xs arbitrary: s) (simp_all split: outcome.splits)

lemma Decode_hit_config:
  "Decode_hit h s = Returned r s' \<or> Decode_hit h s = Thrown e s' \<Longrightarrow> config s' = config s"
  by (auto simp: Decode_hit_def config_def split: if_splits option.splits)

lemma Decode_loop_config:
  "Decode_loop hits s = Returned r s' \<or> Decode_loop hits s = Thrown e s' \<Longrightarrow>
   config s' = config s"
proof (induction hits arbitrary: s)
  case Nil
  then show ?case by auto
next
  case (Cons h hits)
  show ?case
  proof (cases "Decode_hit h s")
    case (Returned u s1)
    with Cons.prems have "Decode_loop hits s1 = Returned r s' \<or> Decode_loop hits s1 = Thrown e s'"
      by simp
    from Cons.IH [OF this] Decode_hit_config [of h s u s1] Returned
    show ?thesis by simp
  next
    case (Thrown e1 s1)
    with Cons.prems have "s1 = s'" by simp
    with Thrown Decode_hit_config [of h s _ s' e1] show ?thesis by simp
  next
    case UndefinedBehaviour
    with Cons.prems show ?thesis by simp
  qed
qed

lemma Decode_loop_thrown:
  "Decode_loop hits s = Thrown e s' \<Longrightarrow>
   e = out_of_range plane_message \<and> (\<exists>h \<in> set hits. fPlane h \<noteq> 1 \<and> fPlane h \<noteq> 2)"
proof (induction hits arbitrary: s)
  case Nil
  then show ?case by simp
next
  case (Cons h hits)
  show ?case
  proof (cases "Decode_hit h s")
    case (Returned u s1)
    with Cons.prems have "Decode_loop hits s1 = Thrown e s'" by simp
    from Cons.IH [OF this] show ?thesis by auto
  next
    case (Thrown e1 s1)
    then have "fPlane h \<noteq> 1 \<and> fPlane h \<noteq> 2 \<and> e1 = out_of_range plane_message"
      by (auto simp: Decode_hit_def split: if_splits option.splits)
    with Thrown Cons.prems show ?thesis by simp
  next
    case UndefinedBehaviour
    with Cons.prems show ?thesis by simp
  qed
qed

lemma Decode_loop_defined:
  assumes "well_sized s" and "\<forall>h \<in> set hits. in_arrays h"
  shows "Decode_loop hits s \<noteq> UndefinedBehaviour"
  using assms
proof (induction hits arbitrary: s)
  case Nil
  then show ?case by simp
next
  case (Cons h hits)
  show ?case
  proof (cases "fPlane h = 1 \<or> fPlane h = 2")
    case True
    with Cons.prems(2) have "within_capacity h"
      by (auto simp: in_arrays_def within_capacity_def)
    from Decode_hit_within [OF Cons.prems(1) this]
    obtain s1 where s1: "Decode_hit h s = Returned () s1" "well_sized s1" by blast
    from Cons.IH [OF s1(2)] Cons.prems(2) s1(1) show ?thesis by simp
  next
    case False
    then have "Decode_hit h s = Thrown (out_of_range plane_message) s"
      by (simp add: Decode_hit_other)
    then show ?thesis by simp
  qed
qed

lemma Clear_config: "Clear s = Some s' \<Longrightarrow> config s' = config s"
  by (auto simp: Clear_def config_def Let_def split: option.splits)

lemma Clear_other_arrays:
  "Clear s = Some s' \<Longrightarrow>
   fAdcPedestal s' = fAdcPedestal s \<and> fAdcMultiplicity s' = fAdcMultiplicity s \<and>
   fTdcMultiplicity s' = fTdcMultiplicity s"
  by (auto simp: Clear_def Let_def split: option.splits)

lemma Clear_twice:
  assumes "Clear s = Some s'"
  shows "Clear s' = Some s'"
proof -
  have fit: "fNumAdc s \<le> int (length (fAdcVal s))" "fNumTdc s \<le> int (length (fTdcVal s))"
    using assms Clear_out [of s] by (auto simp: not_less [symmetric])
  from Clear_in [OF fit] assms
  obtain a t where at: "s' = s\<lparr>fAdcVal := a, fTdcVal := t\<rparr>"
    "length a = length (fAdcVal s)" "length t = length (fTdcVal s)"
    "\<forall>k < length (fAdcVal s). a ! k = (if int k < fNumAdc s then 0 else fAdcVal s ! k)"
    "\<forall>k < length (fTdcVal s). t ! k = (if int k < fNumTdc s then 0 else fTdcVal s ! k)"
    by auto
  have fit': "fNumAdc s' \<le> int (length (fAdcVal s'))" "fNumTdc s' \<le> int (length (fTdcVal s'))"
    using fit at(1,2,3) by simp_all
  from Clear_in [OF fit']
  obtain a2 t2 where at2: "Clear s' = Some (s'\<lparr>fAdcVal := a2, fTdcVal := t2\<rparr>)"
    "length a2 = length (fAdcVal s')" "length t2 = length (fTdcVal s')"
    "\<forall>k < length (fAdcVal s'). a2 ! k = (if int k < fNumAdc s' then 0 else fAdcVal s' ! k)"
    "\<forall>k < length (fTdcVal s'). t2 ! k = (if int k < fNumTdc s' then 0 else fTdcVal s' ! k)"
    by blast
  have "a2 = a"
    using at(1,2,4) at2(2,4) by (intro nth_equalityI) auto
  moreover have "t2 = t"
    using at(1,3,5) at2(3,5) by (intro nth_equalityI) auto
  ultimately show ?thesis using at2(1) at(1) by simp
qed

subsection \<open>The last hit, and decoding hits within the capacity\<close>

lemma last_hit_Some:
  "last_hit p i hits = Some h \<Longrightarrow> h \<in> set hits \<and> addresses h p i"
  by (induction hits) (auto split: option.splits if_splits)

lemma last_hit_filter:
  "last_hit p i hits =
     (case filter (\<lambda>h. addresses h p i) hits of
        [] \<Rightarrow> None
      | x # xs \<Rightarrow> Some (last (x # xs)))"
  by (induction hits) (auto split: list.splits option.splits)

lemma well_sized_configured: "well_sized (configured na nt an tn)"
  by (simp add: well_sized_def configured_def THcTrigDet_new_def)

lemma within_count_capacity:
  "counts_fit s \<Longrightarrow> within_count s h \<Longrightarrow> within_capacity h"
  by (auto simp: counts_fit_def within_count_def within_capacity_def split: if_splits)

lemma Decode_within:
  assumes "well_sized s" and "\<forall>h \<in> set hits. within_capacity h"
  shows "\<exists>s'. Decode hits s = Returned 0 s' \<and>
           (\<forall>i < fMaxAdcChannels. adc_slot s' i =
              (case last_hit 1 i hits of None \<Rightarrow> adc_slot s i | Some h \<Rightarrow> adc_samples h)) \<and>
           (\<forall>i < fMaxTdcChannels. tdc_slot s' i =
              (case last_hit 2 i hits of None \<Rightarrow> tdc_slot s i | Some h \<Rightarrow> tdc_samples h))"
proof -
  from Decode_loop_within [OF assms]
  obtain s' where s': "Decode_loop hits s = Returned () s'"
    "\<forall>i < fMaxAdcChannels. adc_slot s' i =
       (case last_hit 1 i hits of None \<Rightarrow> adc_slot s i | Some h \<Rightarrow> adc_samples h)"
    "\<forall>i < fMaxTdcChannels. tdc_slot s' i =
       (case last_hit 2 i hits of None \<Rightarrow> tdc_slot s i | Some h \<Rightarrow> tdc_samples h)"
    by blast
  from s'(1) have "Decode hits s = Returned 0 s'" by (simp add: Decode_def)
  with s'(2,3) show ?thesis by blast
qed

lemma Decode_stops:
  assumes "well_sized s" and "\<forall>h' \<in> set pre. within_capacity h'"
    and "fPlane h \<noteq> 1" and "fPlane h \<noteq> 2"
  shows "\<exists>s'. Decode pre s = Returned 0 s' \<and>
           Decode (pre @ h # post) s = Thrown (out_of_range plane_message) s' \<and>
           (\<forall>i < fMaxAdcChannels. adc_slot s' i =
              (case last_hit 1 i pre of None \<Rightarrow> adc_slot s i | Some h \<Rightarrow> adc_samples h)) \<and>
           (\<forall>i < fMaxTdcChannels. tdc_slot s' i =
              (case last_hit 2 i pre of None \<Rightarrow> tdc_slot s i | Some h \<Rightarrow> tdc_samples h))"
proof -
  from Decode_loop_within [OF assms(1,2)]
  obtain s' where s': "Decode_loop pre s = Returned () s'"
    "\<forall>i < fMaxAdcChannels. adc_slot s' i =
       (case last_hit 1 i pre of None \<Rightarrow> adc_slot s i | Some h \<Rightarrow> adc_samples h)"
    "\<forall>i < fMaxTdcChannels. tdc_slot s' i =
       (case last_hit 2 i pre of None \<Rightarrow> tdc_slot s i | Some h \<Rightarrow> tdc_samples h)"
    by blast
  have "Decode_loop (pre @ h # post) s = Thrown (out_of_range plane_message) s'"
    using s'(1) Decode_hit_other [OF assms(3,4)] by (simp add: Decode_loop_append)
  then have "Decode (pre @ h # post) s = Thrown (out_of_range plane_message) s'"
    by (simp add: Decode_def)
  moreover from s'(1) have "Decode pre s = Returned 0 s'" by (simp add: Decode_def)
  ultimately show ?thesis using s'(2,3) by blast
qed

lemma addressed_within:
  assumes "within_capacity h"
  shows "addresses h 1 i \<Longrightarrow> i < fMaxAdcChannels" and "addresses h 2 i \<Longrightarrow> i < fMaxTdcChannels"
  using assms by (auto simp: within_capacity_def addresses_def)

subsection \<open>Clear on a well-sized object; the example objects\<close>

lemma well_sized_initialized: "well_sized initialized"
  by (simp add: initialized_def well_sized_def configured_def THcTrigDet_new_def)

lemma counts_fit_initialized: "counts_fit initialized"
  by (simp add: initialized_def counts_fit_def configured_def THcTrigDet_new_def fMaxAdcChannels_def
      fMaxTdcChannels_def)

lemma Clear_well_sized:
  assumes "well_sized s" and "counts_fit s"
  shows "\<exists>s'. Clear s = Some s' \<and> well_sized s' \<and>
           (\<forall>k < fMaxAdcChannels. fAdcVal s' ! k = (if int k < fNumAdc s then 0 else fAdcVal s ! k)) \<and>
           (\<forall>k < fMaxTdcChannels. fTdcVal s' ! k = (if int k < fNumTdc s then 0 else fTdcVal s ! k)) \<and>
           fAdcPedestal s' = fAdcPedestal s \<and> fAdcMultiplicity s' = fAdcMultiplicity s \<and>
           fTdcMultiplicity s' = fTdcMultiplicity s"
proof -
  have fit: "fNumAdc s \<le> int (length (fAdcVal s))" "fNumTdc s \<le> int (length (fTdcVal s))"
    using assms by (simp_all add: well_sized_def counts_fit_def)
  from Clear_in [OF fit]
  obtain a t where at: "Clear s = Some (s\<lparr>fAdcVal := a, fTdcVal := t\<rparr>)"
    "length a = length (fAdcVal s)" "length t = length (fTdcVal s)"
    "\<forall>k < length (fAdcVal s). a ! k = (if int k < fNumAdc s then 0 else fAdcVal s ! k)"
    "\<forall>k < length (fTdcVal s). t ! k = (if int k < fNumTdc s then 0 else fTdcVal s ! k)"
    by blast
  let ?s' = "s\<lparr>fAdcVal := a, fTdcVal := t\<rparr>"
  have "well_sized ?s'" using assms(1) at(2,3) by (simp add: well_sized_def)
  moreover have "\<forall>k < fMaxAdcChannels. fAdcVal ?s' ! k = (if int k < fNumAdc s then 0 else fAdcVal s ! k)"
    using at(4) assms(1) by (simp add: well_sized_def)
  moreover have "\<forall>k < fMaxTdcChannels. fTdcVal ?s' ! k = (if int k < fNumTdc s then 0 else fTdcVal s ! k)"
    using at(5) assms(1) by (simp add: well_sized_def)
  ultimately show ?thesis using at(1) by (intro exI [of _ ?s']) simp
qed

lemma Init_example:
  "Init example_env THcTrigDet_new =
     Returned kOK
       ((configured 2 1 [''x'', ''y''] [''z''])
          \<lparr>fKwPrefix := ''h_trig'',
           fAdcVal := replicate fMaxAdcChannels (- 1),
           fTdcVal := replicate fMaxTdcChannels (- 1),
           fStatus := kOK\<rparr>)"
proof -
  let ?S = "THcTrigDet_new"
  from array_fill_in [of 0 "int fMaxAdcChannels" "fAdcVal ?S" "- 1"]
  obtain a where a: "array_fill 0 (int fMaxAdcChannels) (- 1) (fAdcVal ?S) = Some a"
    "length a = fMaxAdcChannels" "\<forall>k < fMaxAdcChannels. a ! k = - 1"
    by (auto simp: THcTrigDet_new_def)
  from array_fill_in [of 0 "int fMaxTdcChannels" "fTdcVal ?S" "- 1"]
  obtain t where t: "array_fill 0 (int fMaxTdcChannels) (- 1) (fTdcVal ?S) = Some t"
    "length t = fMaxTdcChannels" "\<forall>k < fMaxTdcChannels. t ! k = - 1"
    by (auto simp: THcTrigDet_new_def)
  have a_eq: "a = replicate fMaxAdcChannels (- 1)"
    using a(2,3) by (intro nth_equalityI) auto
  have t_eq: "t = replicate fMaxTdcChannels (- 1)"
    using t(2,3) by (intro nth_equalityI) auto
  have low: "map tolower ''H_trig'' = ''h_trig''"
    by code_simp
  show ?thesis
    using a(1) t(1) low unfolding a_eq t_eq
    by (simp add: Init_def Setup_def example_env_def configured_def THcTrigDet_new_def Let_def)
qed

section \<open>The properties\<close>

subsection \<open>C1: channel numbers outside the configured count\<close>

text \<open>
  C1, as stated, fails. With two ADC channels configured, a hit of plane 1 with channel
  number 3 is outside \<open>[1, count]\<close>; \<open>Decode\<close> raises nothing, returns 0 and has written
  the hit into slot 2.
\<close>

theorem Decode_beyond_count_counterexample:
  "\<not> within_count (configured 2 1 [''x'', ''y''] [''z'']) (hit 1 3 5 1 1 0 0) \<and>
   Decode [hit 1 3 5 1 1 0 0] (configured 2 1 [''x'', ''y''] [''z'']) =
     Returned 0 ((configured 2 1 [''x'', ''y''] [''z''])
       \<lparr>fAdcVal := (replicate fMaxAdcChannels 0)[2 := 5],
        fAdcPedestal := (replicate fMaxAdcChannels 0)[2 := 1],
        fAdcMultiplicity := (replicate fMaxAdcChannels 0)[2 := 1]\<rparr>)"
  by (simp add: Decode_def Decode_hit_def hit_def configured_def THcTrigDet_new_def array_write_def
      fMaxAdcChannels_def within_count_def)

text \<open>
  C1, amended. \<open>Decode\<close> compares no channel number with the count. Whenever every hit
  has plane 1 or 2 and a channel number in \<open>[1, capacity]\<close>, inside \<open>[1, count]\<close> or not,
  \<open>Decode\<close> returns 0 and every slot holds the samples of the last hit that addresses it
  (the write is neither clamped nor dropped). No exception comes from a channel number:
  whatever \<open>Decode\<close> throws is the exception for a plane other than 1 and 2.
\<close>

theorem Decode_unchecked_write:
  "(well_sized s \<and> (\<forall>h \<in> set hits. within_capacity h) \<longrightarrow>
      (\<exists>s'. Decode hits s = Returned 0 s' \<and>
         (\<forall>i < fMaxAdcChannels. adc_slot s' i =
            (case last_hit 1 i hits of None \<Rightarrow> adc_slot s i | Some h \<Rightarrow> adc_samples h)) \<and>
         (\<forall>i < fMaxTdcChannels. tdc_slot s' i =
            (case last_hit 2 i hits of None \<Rightarrow> tdc_slot s i | Some h \<Rightarrow> tdc_samples h)))) \<and>
   (\<forall>e s'. Decode hits s = Thrown e s' \<longrightarrow>
      e = out_of_range plane_message \<and> (\<exists>h \<in> set hits. fPlane h \<noteq> 1 \<and> fPlane h \<noteq> 2))"
proof (intro conjI impI allI)
  assume "well_sized s \<and> (\<forall>h \<in> set hits. within_capacity h)"
  then show "\<exists>s'. Decode hits s = Returned 0 s' \<and>
         (\<forall>i < fMaxAdcChannels. adc_slot s' i =
            (case last_hit 1 i hits of None \<Rightarrow> adc_slot s i | Some h \<Rightarrow> adc_samples h)) \<and>
         (\<forall>i < fMaxTdcChannels. tdc_slot s' i =
            (case last_hit 2 i hits of None \<Rightarrow> tdc_slot s i | Some h \<Rightarrow> tdc_samples h))"
    using Decode_within by blast
next
  fix e s' assume "Decode hits s = Thrown e s'"
  then have "Decode_loop hits s = Thrown e s'"
    by (simp add: Decode_def split: outcome.splits)
  from Decode_loop_thrown [OF this]
  show "e = out_of_range plane_message" and "\<exists>h \<in> set hits. fPlane h \<noteq> 1 \<and> fPlane h \<noteq> 2"
    by simp_all
qed

text \<open>The amended C1 at a hit beyond the count, and at a hit of plane 3.\<close>

theorem Decode_unchecked_write_witness:
  "well_sized (configured 2 1 [''x'', ''y''] [''z'']) \<and>
   within_capacity (hit 1 3 5 1 1 0 0) \<and>
   (\<exists>s'. Decode [hit 1 3 5 1 1 0 0] (configured 2 1 [''x'', ''y''] [''z'']) = Returned 0 s' \<and>
      adc_slot s' 2 = (5, 1, 1)) \<and>
   Decode [hit 3 1 0 0 0 0 0] (configured 2 1 [''x'', ''y''] [''z'']) =
     Thrown (out_of_range plane_message) (configured 2 1 [''x'', ''y''] [''z'']) \<and>
   (\<exists>h \<in> set [hit 3 1 0 0 0 0 0]. fPlane h \<noteq> 1 \<and> fPlane h \<noteq> 2)"
proof -
  let ?S = "configured 2 1 [''x'', ''y''] [''z'']"
  have h1: "well_sized ?S" by (rule well_sized_configured)
  have h0: "within_capacity (hit 1 3 5 1 1 0 0)"
    by (simp add: within_capacity_def hit_def fMaxAdcChannels_def)
  then have h2: "\<forall>h \<in> set [hit 1 3 5 1 1 0 0]. within_capacity h" by simp
  have l: "last_hit 1 2 [hit 1 3 5 1 1 0 0] = Some (hit 1 3 5 1 1 0 0)"
    by (simp add: addresses_def hit_def)
  have sm: "adc_samples (hit 1 3 5 1 1 0 0) = (5, 1, 1)"
    by (simp add: adc_samples_def hit_def)
  have two: "(2::nat) < fMaxAdcChannels" by (simp add: fMaxAdcChannels_def)
  from Decode_unchecked_write [of ?S "[hit 1 3 5 1 1 0 0]"] h1 h2
  obtain s' where s': "Decode [hit 1 3 5 1 1 0 0] ?S = Returned 0 s'"
    "\<forall>i < fMaxAdcChannels. adc_slot s' i =
       (case last_hit 1 i [hit 1 3 5 1 1 0 0] of None \<Rightarrow> adc_slot ?S i
        | Some h \<Rightarrow> adc_samples h)"
    by blast
  from s'(2) two have "adc_slot s' 2 =
       (case last_hit 1 2 [hit 1 3 5 1 1 0 0] of None \<Rightarrow> adc_slot ?S 2
        | Some h \<Rightarrow> adc_samples h)" by blast
  then have slot: "adc_slot s' 2 = (5, 1, 1)" by (simp only: l sm option.case)
  have t: "Decode [hit 3 1 0 0 0 0 0] ?S = Thrown (out_of_range plane_message) ?S"
    by (simp add: Decode_def Decode_hit_def hit_def)
  from Decode_unchecked_write [of ?S "[hit 3 1 0 0 0 0 0]"] t
  have "\<exists>h \<in> set [hit 3 1 0 0 0 0 0]. fPlane h \<noteq> 1 \<and> fPlane h \<noteq> 2" by blast
  with h1 h0 s'(1) slot t show ?thesis by blast
qed

subsection \<open>C2: what the reset zeroes\<close>

text \<open>
  C2 says that the reset zeroes value, pedestal and multiplicity of every configured
  channel. \<open>Clear\<close> assigns only \<open>fAdcVal\<close> and \<open>fTdcVal\<close>, although its comment reads
  "Reset all data". After an ADC hit and a TDC hit on channel 1, \<open>Clear\<close> zeroes the two
  values and leaves the pedestal 1/2 and the multiplicities 2 and 1 where they were.
\<close>

theorem Clear_leaves_pedestal_and_multiplicity:
  "\<exists>s1 s2.
     Decode [hit 1 1 3 (1/2) 2 0 0, hit 2 1 0 0 0 7 1] (configured 2 1 [''x'', ''y''] [''z'']) =
       Returned 0 s1 \<and>
     adc_slot s1 0 = (3, 1/2, 2) \<and> tdc_slot s1 0 = (7, 1) \<and>
     Clear s1 = Some s2 \<and>
     adc_slot s2 0 = (0, 1/2, 2) \<and> tdc_slot s2 0 = (0, 1)"
proof -
  let ?S = "configured 2 1 [''x'', ''y''] [''z'']"
  let ?S1 = "?S\<lparr>fAdcVal := (replicate fMaxAdcChannels 0)[0 := 3],
               fAdcPedestal := (replicate fMaxAdcChannels 0)[0 := 1/2],
               fAdcMultiplicity := (replicate fMaxAdcChannels 0)[0 := 2],
               fTdcVal := (replicate fMaxTdcChannels 0)[0 := 7],
               fTdcMultiplicity := (replicate fMaxTdcChannels 0)[0 := 1]\<rparr>"
  have d: "Decode [hit 1 1 3 (1/2) 2 0 0, hit 2 1 0 0 0 7 1] ?S = Returned 0 ?S1"
    by (simp add: Decode_def Decode_hit_def hit_def configured_def THcTrigDet_new_def array_write_def
        fMaxAdcChannels_def fMaxTdcChannels_def)
  have s1: "adc_slot ?S1 0 = (3, 1/2, 2)" "tdc_slot ?S1 0 = (7, 1)"
    by (simp_all add: adc_slot_def tdc_slot_def fMaxAdcChannels_def fMaxTdcChannels_def)
  have ws: "well_sized ?S1" "counts_fit ?S1"
    by (simp_all add: well_sized_def counts_fit_def configured_def THcTrigDet_new_def fMaxAdcChannels_def
        fMaxTdcChannels_def)
  from Clear_well_sized [OF ws]
  obtain s2 where s2: "Clear ?S1 = Some s2"
    "\<forall>k < fMaxAdcChannels. fAdcVal s2 ! k = (if int k < fNumAdc ?S1 then 0 else fAdcVal ?S1 ! k)"
    "\<forall>k < fMaxTdcChannels. fTdcVal s2 ! k = (if int k < fNumTdc ?S1 then 0 else fTdcVal ?S1 ! k)"
    "fAdcPedestal s2 = fAdcPedestal ?S1" "fAdcMultiplicity s2 = fAdcMultiplicity ?S1"
    "fTdcMultiplicity s2 = fTdcMultiplicity ?S1"
    by blast
  from s2(2) have "fAdcVal s2 ! 0 = 0" by (simp add: fMaxAdcChannels_def configured_def THcTrigDet_new_def)
  with s2(4,5) have a: "adc_slot s2 0 = (0, 1/2, 2)"
    by (simp add: adc_slot_def fMaxAdcChannels_def)
  from s2(3) have "fTdcVal s2 ! 0 = 0" by (simp add: fMaxTdcChannels_def configured_def THcTrigDet_new_def)
  with s2(6) have t: "tdc_slot s2 0 = (0, 1)"
    by (simp add: tdc_slot_def fMaxTdcChannels_def)
  from d s1 s2(1) a t show ?thesis by blast
qed

subsection \<open>C3: the last hit wins\<close>

text \<open>
  C3. On an object whose counts do not exceed the capacities, for every hit list whose
  hits have plane 1 or 2 and a channel number in \<open>[1, count]\<close> of their kind, \<open>Decode\<close>
  returns 0, and every slot addressed by some hit holds the samples of the last hit, in
  input order, that addresses it: value of sub-signal 0, pedestal and multiplicity for
  an ADC channel, value of sub-signal 1 and multiplicity for a TDC channel. A slot that
  no hit addresses is as before.
\<close>

theorem Decode_last_hit_wins:
  assumes "well_sized s" and "counts_fit s" and "\<forall>h \<in> set hits. within_count s h"
  shows "\<exists>s'. Decode hits s = Returned 0 s' \<and>
           (\<forall>i h. last_hit 1 i hits = Some h \<longrightarrow> adc_slot s' i = adc_samples h) \<and>
           (\<forall>i h. last_hit 2 i hits = Some h \<longrightarrow> tdc_slot s' i = tdc_samples h) \<and>
           (\<forall>i < fMaxAdcChannels. last_hit 1 i hits = None \<longrightarrow> adc_slot s' i = adc_slot s i) \<and>
           (\<forall>i < fMaxTdcChannels. last_hit 2 i hits = None \<longrightarrow> tdc_slot s' i = tdc_slot s i)"
proof -
  have cap: "\<forall>h \<in> set hits. within_capacity h"
    using assms(2,3) within_count_capacity by blast
  from Decode_within [OF assms(1) cap]
  obtain s' where s': "Decode hits s = Returned 0 s'"
    "\<forall>i < fMaxAdcChannels. adc_slot s' i =
       (case last_hit 1 i hits of None \<Rightarrow> adc_slot s i | Some h \<Rightarrow> adc_samples h)"
    "\<forall>i < fMaxTdcChannels. tdc_slot s' i =
       (case last_hit 2 i hits of None \<Rightarrow> tdc_slot s i | Some h \<Rightarrow> tdc_samples h)"
    by blast
  have adc: "adc_slot s' i = adc_samples h" if l: "last_hit 1 i hits = Some h" for i h
  proof -
    from last_hit_Some [OF l] cap have "within_capacity h" "addresses h 1 i" by auto
    then have "i < fMaxAdcChannels" by (rule addressed_within)
    with s'(2) l show ?thesis by simp
  qed
  have tdc: "tdc_slot s' i = tdc_samples h" if l: "last_hit 2 i hits = Some h" for i h
  proof -
    from last_hit_Some [OF l] cap have "within_capacity h" "addresses h 2 i" by auto
    then have "i < fMaxTdcChannels" by (rule addressed_within)
    with s'(3) l show ?thesis by simp
  qed
  from s'(2) have adc0: "\<forall>i < fMaxAdcChannels. last_hit 1 i hits = None \<longrightarrow> adc_slot s' i = adc_slot s i"
    by simp
  from s'(3) have tdc0: "\<forall>i < fMaxTdcChannels. last_hit 2 i hits = None \<longrightarrow> tdc_slot s' i = tdc_slot s i"
    by simp
  from s'(1) adc tdc adc0 tdc0 show ?thesis by blast
qed

text \<open>C3 at three hits, two of them on ADC channel 1: the later one stays.\<close>

theorem Decode_last_hit_wins_witness:
  "well_sized (configured 2 1 [''x'', ''y''] [''z'']) \<and>
   counts_fit (configured 2 1 [''x'', ''y''] [''z'']) \<and>
   within_count (configured 2 1 [''x'', ''y''] [''z'']) (hit 1 1 4 1 1 0 0) \<and>
   within_count (configured 2 1 [''x'', ''y''] [''z'']) (hit 2 1 0 0 0 7 1) \<and>
   within_count (configured 2 1 [''x'', ''y''] [''z'']) (hit 1 1 3 (1/2) 2 0 0) \<and>
   (\<exists>s'. Decode [hit 1 1 4 1 1 0 0, hit 2 1 0 0 0 7 1, hit 1 1 3 (1/2) 2 0 0]
            (configured 2 1 [''x'', ''y''] [''z'']) = Returned 0 s' \<and>
      adc_slot s' 0 = (3, 1/2, 2) \<and> tdc_slot s' 0 = (7, 1) \<and> adc_slot s' 1 = (0, 0, 0))"
proof -
  let ?S = "configured 2 1 [''x'', ''y''] [''z'']"
  let ?hits = "[hit 1 1 4 1 1 0 0, hit 2 1 0 0 0 7 1, hit 1 1 3 (1/2) 2 0 0]"
  have h1: "well_sized ?S" by (rule well_sized_configured)
  have h2: "counts_fit ?S"
    by (simp add: counts_fit_def configured_def THcTrigDet_new_def fMaxAdcChannels_def fMaxTdcChannels_def)
  have w: "within_count ?S (hit 1 1 4 1 1 0 0)" "within_count ?S (hit 2 1 0 0 0 7 1)"
    "within_count ?S (hit 1 1 3 (1/2) 2 0 0)"
    by (simp_all add: within_count_def configured_def THcTrigDet_new_def hit_def)
  then have h3: "\<forall>h \<in> set ?hits. within_count ?S h" by simp
  have l1: "last_hit 1 0 ?hits = Some (hit 1 1 3 (1/2) 2 0 0)"
    by (simp add: addresses_def hit_def)
  have l2: "last_hit 2 0 ?hits = Some (hit 2 1 0 0 0 7 1)"
    by (simp add: addresses_def hit_def)
  have l3: "last_hit 1 1 ?hits = None"
    by (simp add: addresses_def hit_def)
  have one: "(1::nat) < fMaxAdcChannels" by (simp add: fMaxAdcChannels_def)
  from Decode_last_hit_wins [OF h1 h2 h3]
  obtain s' where s': "Decode ?hits ?S = Returned 0 s'"
    "\<forall>i h. last_hit 1 i ?hits = Some h \<longrightarrow> adc_slot s' i = adc_samples h"
    "\<forall>i h. last_hit 2 i ?hits = Some h \<longrightarrow> tdc_slot s' i = tdc_samples h"
    "\<forall>i < fMaxAdcChannels. last_hit 1 i ?hits = None \<longrightarrow> adc_slot s' i = adc_slot ?S i"
    by blast
  from s'(2) l1 have "adc_slot s' 0 = adc_samples (hit 1 1 3 (1/2) 2 0 0)" by blast
  then have a: "adc_slot s' 0 = (3, 1/2, 2)" by (simp add: adc_samples_def hit_def)
  from s'(3) l2 have "tdc_slot s' 0 = tdc_samples (hit 2 1 0 0 0 7 1)" by blast
  then have t: "tdc_slot s' 0 = (7, 1)" by (simp add: tdc_samples_def hit_def)
  from s'(4) l3 one have "adc_slot s' 1 = adc_slot ?S 1" by blast
  then have u: "adc_slot s' 1 = (0, 0, 0)"
    by (simp add: adc_slot_def configured_def THcTrigDet_new_def fMaxAdcChannels_def)
  from h1 h2 w s'(1) a t u show ?thesis by blast
qed

subsection \<open>C4: a hit of an unsupported plane ends decoding\<close>

text \<open>
  C4. When the hits before the first hit of a plane other than 1 and 2 are within the
  arrays, \<open>Decode\<close> throws the exception for the unsupported plane at that hit, whatever
  follows it. The object is left exactly as decoding the earlier hits alone leaves it:
  nothing is written for the offending hit or for any hit after it, and a slot that no
  earlier hit addresses is as before the call.
\<close>

theorem Decode_fail_fast:
  assumes "well_sized s" and "\<forall>h' \<in> set pre. within_capacity h'"
    and "fPlane h \<noteq> 1" and "fPlane h \<noteq> 2"
  shows "\<exists>s'. Decode (pre @ h # post) s = Thrown (out_of_range plane_message) s' \<and>
           Decode pre s = Returned 0 s' \<and>
           (\<forall>i < fMaxAdcChannels. last_hit 1 i pre = None \<longrightarrow> adc_slot s' i = adc_slot s i) \<and>
           (\<forall>i < fMaxTdcChannels. last_hit 2 i pre = None \<longrightarrow> tdc_slot s' i = tdc_slot s i)"
proof -
  from Decode_stops [OF assms, of post]
  obtain s' where s': "Decode pre s = Returned 0 s'"
    "Decode (pre @ h # post) s = Thrown (out_of_range plane_message) s'"
    "\<forall>i < fMaxAdcChannels. adc_slot s' i =
       (case last_hit 1 i pre of None \<Rightarrow> adc_slot s i | Some h \<Rightarrow> adc_samples h)"
    "\<forall>i < fMaxTdcChannels. tdc_slot s' i =
       (case last_hit 2 i pre of None \<Rightarrow> tdc_slot s i | Some h \<Rightarrow> tdc_samples h)"
    by blast
  from s'(3) have "\<forall>i < fMaxAdcChannels. last_hit 1 i pre = None \<longrightarrow> adc_slot s' i = adc_slot s i"
    by simp
  moreover from s'(4)
  have "\<forall>i < fMaxTdcChannels. last_hit 2 i pre = None \<longrightarrow> tdc_slot s' i = tdc_slot s i"
    by simp
  ultimately show ?thesis using s'(1,2) by blast
qed

text \<open>C4 at a list with one hit before the hit of plane 3 and two hits after it.\<close>

theorem Decode_fail_fast_witness:
  "well_sized (configured 2 1 [''x'', ''y''] [''z'']) \<and>
   within_capacity (hit 1 1 3 (1/2) 2 0 0) \<and>
   fPlane (hit 3 2 9 9 9 9 9) \<noteq> 1 \<and> fPlane (hit 3 2 9 9 9 9 9) \<noteq> 2 \<and>
   (\<exists>s'. Decode ([hit 1 1 3 (1/2) 2 0 0] @ hit 3 2 9 9 9 9 9 # [hit 2 1 0 0 0 7 1, hit 1 2 8 8 8 0 0])
            (configured 2 1 [''x'', ''y''] [''z'']) = Thrown (out_of_range plane_message) s' \<and>
      Decode [hit 1 1 3 (1/2) 2 0 0] (configured 2 1 [''x'', ''y''] [''z'']) = Returned 0 s' \<and>
      adc_slot s' 1 = (0, 0, 0) \<and> tdc_slot s' 0 = (0, 0))"
proof -
  let ?S = "configured 2 1 [''x'', ''y''] [''z'']"
  let ?pre = "[hit 1 1 3 (1/2) 2 0 0]"
  have h1: "well_sized ?S" by (rule well_sized_configured)
  have h0: "within_capacity (hit 1 1 3 (1/2) 2 0 0)"
    by (simp add: within_capacity_def hit_def fMaxAdcChannels_def)
  then have h2: "\<forall>h' \<in> set ?pre. within_capacity h'" by simp
  have h3: "fPlane (hit 3 2 9 9 9 9 9) \<noteq> 1" and h4: "fPlane (hit 3 2 9 9 9 9 9) \<noteq> 2"
    by (simp_all add: hit_def)
  have l1: "last_hit 1 1 ?pre = None" and l2: "last_hit 2 0 ?pre = None"
    by (simp_all add: addresses_def hit_def)
  have b: "(1::nat) < fMaxAdcChannels" "(0::nat) < fMaxTdcChannels"
    by (simp_all add: fMaxAdcChannels_def fMaxTdcChannels_def)
  from Decode_fail_fast [OF h1 h2 h3 h4, of "[hit 2 1 0 0 0 7 1, hit 1 2 8 8 8 0 0]"]
  obtain s' where s':
    "Decode (?pre @ hit 3 2 9 9 9 9 9 # [hit 2 1 0 0 0 7 1, hit 1 2 8 8 8 0 0]) ?S =
       Thrown (out_of_range plane_message) s'"
    "Decode ?pre ?S = Returned 0 s'"
    "\<forall>i < fMaxAdcChannels. last_hit 1 i ?pre = None \<longrightarrow> adc_slot s' i = adc_slot ?S i"
    "\<forall>i < fMaxTdcChannels. last_hit 2 i ?pre = None \<longrightarrow> tdc_slot s' i = tdc_slot ?S i"
    by blast
  from s'(3) l1 b(1) have "adc_slot s' 1 = adc_slot ?S 1" by blast
  then have a: "adc_slot s' 1 = (0, 0, 0)"
    by (simp add: adc_slot_def configured_def THcTrigDet_new_def fMaxAdcChannels_def)
  from s'(4) l2 b(2) have "tdc_slot s' 0 = tdc_slot ?S 0" by blast
  then have t: "tdc_slot s' 0 = (0, 0)"
    by (simp add: tdc_slot_def configured_def THcTrigDet_new_def fMaxTdcChannels_def)
  from h1 h0 h3 h4 s'(1,2) a t show ?thesis by blast
qed

subsection \<open>C5: the reset leaves the slots beyond the count alone\<close>

text \<open>
  C5. On an object whose counts do not exceed the capacities, \<open>Clear\<close> returns and
  every slot at an index \<open>\<ge> count\<close> of its kind is unchanged.
\<close>

theorem Clear_frame:
  assumes "well_sized s" and "counts_fit s"
  shows "\<exists>s'. Clear s = Some s' \<and>
           (\<forall>i < fMaxAdcChannels. fNumAdc s \<le> int i \<longrightarrow> adc_slot s' i = adc_slot s i) \<and>
           (\<forall>i < fMaxTdcChannels. fNumTdc s \<le> int i \<longrightarrow> tdc_slot s' i = tdc_slot s i)"
proof -
  from Clear_well_sized [OF assms]
  obtain s' where s': "Clear s = Some s'"
    "\<forall>k < fMaxAdcChannels. fAdcVal s' ! k = (if int k < fNumAdc s then 0 else fAdcVal s ! k)"
    "\<forall>k < fMaxTdcChannels. fTdcVal s' ! k = (if int k < fNumTdc s then 0 else fTdcVal s ! k)"
    "fAdcPedestal s' = fAdcPedestal s" "fAdcMultiplicity s' = fAdcMultiplicity s"
    "fTdcMultiplicity s' = fTdcMultiplicity s"
    by blast
  have "\<forall>i < fMaxAdcChannels. fNumAdc s \<le> int i \<longrightarrow> adc_slot s' i = adc_slot s i"
    using s'(2,4,5) by (simp add: adc_slot_def)
  moreover have "\<forall>i < fMaxTdcChannels. fNumTdc s \<le> int i \<longrightarrow> tdc_slot s' i = tdc_slot s i"
    using s'(3,6) by (simp add: tdc_slot_def)
  ultimately show ?thesis using s'(1) by blast
qed

text \<open>
  C5 after initialization: slot 2 of the ADC arrays and slot 1 of the TDC arrays keep
  the sentinel.
\<close>

theorem Clear_frame_witness:
  "well_sized initialized \<and> counts_fit initialized \<and>
   fNumAdc initialized = 2 \<and> fNumTdc initialized = 1 \<and>
   adc_slot initialized 2 = (- 1, 0, 0) \<and> tdc_slot initialized 1 = (- 1, 0) \<and>
   (\<exists>s'. Clear initialized = Some s' \<and>
      adc_slot s' 2 = (- 1, 0, 0) \<and> tdc_slot s' 1 = (- 1, 0))"
proof -
  have n: "fNumAdc initialized = 2" "fNumTdc initialized = 1"
    by (simp_all add: initialized_def configured_def THcTrigDet_new_def)
  have b: "adc_slot initialized 2 = (- 1, 0, 0)" "tdc_slot initialized 1 = (- 1, 0)"
    by (simp_all add: adc_slot_def tdc_slot_def initialized_def configured_def THcTrigDet_new_def
        fMaxAdcChannels_def fMaxTdcChannels_def)
  have i: "(2::nat) < fMaxAdcChannels" "(1::nat) < fMaxTdcChannels"
    by (simp_all add: fMaxAdcChannels_def fMaxTdcChannels_def)
  from Clear_frame [OF well_sized_initialized counts_fit_initialized]
  obtain s' where s': "Clear initialized = Some s'"
    "\<forall>i < fMaxAdcChannels. fNumAdc initialized \<le> int i \<longrightarrow> adc_slot s' i = adc_slot initialized i"
    "\<forall>i < fMaxTdcChannels. fNumTdc initialized \<le> int i \<longrightarrow> tdc_slot s' i = tdc_slot initialized i"
    by blast
  from s'(2) i(1) n(1) have a: "adc_slot s' 2 = adc_slot initialized 2" by simp
  from s'(3) i(2) n(2) have t: "tdc_slot s' 1 = tdc_slot initialized 1" by simp
  from well_sized_initialized counts_fit_initialized n b s'(1) a t show ?thesis by auto
qed

subsection \<open>C6: the value Decode returns\<close>

text \<open>
  C6. Whenever \<open>Decode\<close> returns, it returns 0.
\<close>

theorem Decode_returns_0: "Decode hits s = Returned r s' \<Longrightarrow> r = 0"
  by (auto simp: Decode_def split: outcome.splits)

text \<open>C6 at a list of two hits.\<close>

theorem Decode_returns_0_witness:
  "\<exists>r s'. Decode [hit 1 1 3 (1/2) 2 0 0, hit 2 1 0 0 0 7 1]
            (configured 2 1 [''x'', ''y''] [''z'']) = Returned r s' \<and> r = 0"
proof -
  let ?S = "configured 2 1 [''x'', ''y''] [''z'']"
  let ?hits = "[hit 1 1 3 (1/2) 2 0 0, hit 2 1 0 0 0 7 1]"
  have "\<forall>h \<in> set ?hits. within_capacity h"
    by (simp add: within_capacity_def hit_def fMaxAdcChannels_def fMaxTdcChannels_def)
  from Decode_within [OF well_sized_configured this]
  obtain r s' where d: "Decode ?hits ?S = Returned r s'" by blast
  from Decode_returns_0 [OF d] d show ?thesis by blast
qed

subsection \<open>C7: initialization fills the value arrays\<close>

text \<open>
  C7. On an object whose arrays have the declared capacities, and with an initializer
  of the base class that returns or throws and leaves the value arrays alone, \<open>Init\<close>
  returns or throws with every slot of \<open>fAdcVal\<close> and of \<open>fTdcVal\<close>, over the whole
  capacity, holding \<open>-1\<close>.
\<close>

theorem Init_sets_values:
  assumes "well_sized s" and "keeps_values (THaDetector_Init env)"
  shows "\<exists>s'. ((\<exists>r. Init env s = Returned r s') \<or> (\<exists>e. Init env s = Thrown e s')) \<and>
           fAdcVal s' = replicate fMaxAdcChannels (- 1) \<and>
           fTdcVal s' = replicate fMaxTdcChannels (- 1)"
proof -
  let ?s1 = "Setup (GetApparatusName env) (GetName env) (GetTitle env) s"
  have len: "length (fAdcVal ?s1) = fMaxAdcChannels" "length (fTdcVal ?s1) = fMaxTdcChannels"
    using assms(1) by (simp_all add: Setup_def well_sized_def)
  from array_fill_in [of 0 "int fMaxAdcChannels" "fAdcVal ?s1" "- 1"] len(1)
  obtain a where a: "array_fill 0 (int fMaxAdcChannels) (- 1) (fAdcVal ?s1) = Some a"
    "length a = fMaxAdcChannels" "\<forall>k < fMaxAdcChannels. a ! k = - 1"
    by auto
  from array_fill_in [of 0 "int fMaxTdcChannels" "fTdcVal ?s1" "- 1"] len(2)
  obtain t where t: "array_fill 0 (int fMaxTdcChannels) (- 1) (fTdcVal ?s1) = Some t"
    "length t = fMaxTdcChannels" "\<forall>k < fMaxTdcChannels. t ! k = - 1"
    by auto
  have a_eq: "a = replicate fMaxAdcChannels (- 1)"
    using a(2,3) by (intro nth_equalityI) auto
  have t_eq: "t = replicate fMaxTdcChannels (- 1)"
    using t(2,3) by (intro nth_equalityI) auto
  let ?s3 = "?s1\<lparr>fAdcVal := a, fTdcVal := t\<rparr>"
  have s3: "fAdcVal ?s3 = a" "fTdcVal ?s3 = t" by simp_all
  have base: "case THaDetector_Init env ?s3 of
                Returned _ t' \<Rightarrow> fAdcVal t' = a \<and> fTdcVal t' = t
              | Thrown _ t' \<Rightarrow> fAdcVal t' = a \<and> fTdcVal t' = t
              | UndefinedBehaviour \<Rightarrow> False"
  proof -
    from assms(2) have "case THaDetector_Init env ?s3 of
                Returned _ t' \<Rightarrow> fAdcVal t' = fAdcVal ?s3 \<and> fTdcVal t' = fTdcVal ?s3
              | Thrown _ t' \<Rightarrow> fAdcVal t' = fAdcVal ?s3 \<and> fTdcVal t' = fTdcVal ?s3
              | UndefinedBehaviour \<Rightarrow> False"
      unfolding keeps_values_def by blast
    then show ?thesis by (simp split: outcome.splits)
  qed
  have unfold: "Init env s =
     (case THaDetector_Init env ?s3 of
        UndefinedBehaviour \<Rightarrow> UndefinedBehaviour
      | Thrown e s4 \<Rightarrow> Thrown e s4
      | Returned status s4 \<Rightarrow>
          if status \<noteq> kOK then Returned status (s4\<lparr>fStatus := status\<rparr>)
          else
            (let EngineDID = map toupper (take 1 (GetApparatusName env) @ GetName env) in
             if FillMap env EngineDID < 0 then Returned kInitError s4
             else Returned kOK (s4\<lparr>fStatus := kOK\<rparr>)))"
    using a(1) t(1) by (simp add: Init_def Let_def Setup_def)
  show ?thesis
  proof (cases "THaDetector_Init env ?s3")
    case (Returned status s4)
    with base have v: "fAdcVal s4 = a" "fTdcVal s4 = t" by simp_all
    show ?thesis
      using unfold Returned v a_eq t_eq by (auto simp: Let_def)
  next
    case (Thrown e s4)
    with base have v: "fAdcVal s4 = a" "fTdcVal s4 = t" by simp_all
    show ?thesis
      using unfold Thrown v a_eq t_eq by auto
  next
    case UndefinedBehaviour
    with base show ?thesis by simp
  qed
qed

text \<open>C7 at a newly constructed object.\<close>

theorem Init_sets_values_witness:
  "well_sized THcTrigDet_new \<and> keeps_values (THaDetector_Init example_env) \<and>
   (\<exists>s'. Init example_env THcTrigDet_new = Returned kOK s' \<and>
      fAdcVal s' = replicate fMaxAdcChannels (- 1) \<and>
      fTdcVal s' = replicate fMaxTdcChannels (- 1))"
proof -
  have h1: "well_sized THcTrigDet_new" by (simp add: well_sized_def THcTrigDet_new_def)
  have h2: "keeps_values (THaDetector_Init example_env)"
    by (simp add: keeps_values_def example_env_def)
  from Init_sets_values [OF h1 h2]
  obtain s' where s':
    "(\<exists>r. Init example_env THcTrigDet_new = Returned r s') \<or>
     (\<exists>e. Init example_env THcTrigDet_new = Thrown e s')"
    "fAdcVal s' = replicate fMaxAdcChannels (- 1)"
    "fTdcVal s' = replicate fMaxTdcChannels (- 1)"
    by blast
  from s'(1) have "Init example_env THcTrigDet_new = Returned kOK s'"
    by (auto simp: Init_example)
  with h1 h2 s'(2,3) show ?thesis by blast
qed

subsection \<open>C8: resetting twice\<close>

text \<open>
  C8. \<open>Clear\<close> after \<open>Clear\<close> gives what one \<open>Clear\<close> gives; on an object whose counts do
  not exceed the capacities the first call returns, and the second leaves the object
  as the first left it.
\<close>

theorem Clear_idempotent:
  "Option.bind (Clear s) Clear = Clear s \<and>
   (well_sized s \<and> counts_fit s \<longrightarrow> (\<exists>s'. Clear s = Some s' \<and> Clear s' = Some s'))"
proof
  show "Option.bind (Clear s) Clear = Clear s"
    by (cases "Clear s") (simp_all add: Clear_twice)
  show "well_sized s \<and> counts_fit s \<longrightarrow> (\<exists>s'. Clear s = Some s' \<and> Clear s' = Some s')"
  proof
    assume "well_sized s \<and> counts_fit s"
    then obtain s' where "Clear s = Some s'" using Clear_well_sized by blast
    then show "\<exists>s'. Clear s = Some s' \<and> Clear s' = Some s'" using Clear_twice by blast
  qed
qed

text \<open>C8 after initialization, where the reset does change the object.\<close>

theorem Clear_idempotent_witness:
  "well_sized initialized \<and> counts_fit initialized \<and>
   (\<exists>s'. Clear initialized = Some s' \<and> Clear s' = Some s' \<and>
      Option.bind (Clear initialized) Clear = Some s' \<and> s' \<noteq> initialized)"
proof -
  from Clear_idempotent [of initialized] well_sized_initialized counts_fit_initialized
  obtain s' where s': "Clear initialized = Some s'" "Clear s' = Some s'"
    "Option.bind (Clear initialized) Clear = Clear initialized"
    by blast
  from Clear_well_sized [OF well_sized_initialized counts_fit_initialized] s'(1)
  have "\<forall>k < fMaxAdcChannels. fAdcVal s' ! k =
          (if int k < fNumAdc initialized then 0 else fAdcVal initialized ! k)"
    by auto
  then have "fAdcVal s' ! 0 = 0"
    by (simp add: fMaxAdcChannels_def initialized_def configured_def THcTrigDet_new_def)
  moreover have "fAdcVal initialized ! 0 = - 1"
    by (simp add: initialized_def fMaxAdcChannels_def)
  ultimately have "s' \<noteq> initialized" by auto
  with s' well_sized_initialized counts_fit_initialized show ?thesis by auto
qed

subsection \<open>C9: the configuration is not touched\<close>

text \<open>
  C9. However \<open>Decode\<close> ends, by returning or by throwing, the counts and the name lists
  are as before the call, and so they are when \<open>Clear\<close> returns. \<open>Decode\<close> does end in
  one of these two ways when the hits of planes 1 and 2 are within the arrays, and
  \<open>Clear\<close> returns when the counts do not exceed the capacities.
\<close>

theorem Decode_Clear_keep_config:
  "(\<forall>r e s'. Decode hits s = Returned r s' \<or> Decode hits s = Thrown e s' \<longrightarrow>
      config s' = config s) \<and>
   (\<forall>s'. Clear s = Some s' \<longrightarrow> config s' = config s) \<and>
   (well_sized s \<and> (\<forall>h \<in> set hits. in_arrays h) \<longrightarrow> Decode hits s \<noteq> UndefinedBehaviour) \<and>
   (well_sized s \<and> counts_fit s \<longrightarrow> Clear s \<noteq> None)"
proof (intro conjI allI impI)
  fix r e s' assume "Decode hits s = Returned r s' \<or> Decode hits s = Thrown e s'"
  then have "Decode_loop hits s = Returned () s' \<or> Decode_loop hits s = Thrown e s'"
    by (auto simp: Decode_def split: outcome.splits)
  then show "config s' = config s" by (rule Decode_loop_config)
next
  fix s' assume "Clear s = Some s'"
  then show "config s' = config s" by (rule Clear_config)
next
  assume "well_sized s \<and> (\<forall>h \<in> set hits. in_arrays h)"
  then have "Decode_loop hits s \<noteq> UndefinedBehaviour" by (simp add: Decode_loop_defined)
  then show "Decode hits s \<noteq> UndefinedBehaviour"
    by (simp add: Decode_def split: outcome.splits)
next
  assume "well_sized s \<and> counts_fit s"
  then show "Clear s \<noteq> None" using Clear_well_sized by fastforce
qed

text \<open>C9 at a call of \<open>Decode\<close> that returns, one that throws, and a call of \<open>Clear\<close>.\<close>

theorem Decode_Clear_keep_config_witness:
  "well_sized initialized \<and> counts_fit initialized \<and>
   in_arrays (hit 1 1 3 (1/2) 2 0 0) \<and> in_arrays (hit 3 1 9 9 9 9 9) \<and>
   config initialized = (2, 1, [''x'', ''y''], [''z'']) \<and>
   (\<exists>s'. Decode [hit 1 1 3 (1/2) 2 0 0] initialized = Returned 0 s' \<and>
      config s' = (2, 1, [''x'', ''y''], [''z''])) \<and>
   (\<exists>s'. Decode [hit 1 1 3 (1/2) 2 0 0, hit 3 1 9 9 9 9 9] initialized =
            Thrown (out_of_range plane_message) s' \<and>
      config s' = (2, 1, [''x'', ''y''], [''z''])) \<and>
   (\<exists>s'. Clear initialized = Some s' \<and> config s' = (2, 1, [''x'', ''y''], [''z'']))"
proof -
  let ?h = "hit 1 1 3 (1/2) 2 0 0" and ?b = "hit 3 1 9 9 9 9 9"
  have c: "config initialized = (2, 1, [''x'', ''y''], [''z''])"
    by (simp add: config_def initialized_def configured_def THcTrigDet_new_def)
  have a: "in_arrays ?h" "in_arrays ?b"
    by (simp_all add: in_arrays_def hit_def fMaxAdcChannels_def)
  have w: "within_capacity ?h"
    by (simp add: within_capacity_def hit_def fMaxAdcChannels_def)
  have p: "fPlane ?b \<noteq> 1" "fPlane ?b \<noteq> 2" by (simp_all add: hit_def)
  from Decode_within [OF well_sized_initialized, of "[?h]"] w
  obtain s1 where s1: "Decode [?h] initialized = Returned 0 s1" by auto
  from Decode_stops [OF well_sized_initialized _ p, of "[?h]" "[]"] w
  obtain s2 where s2: "Decode [?h, ?b] initialized = Thrown (out_of_range plane_message) s2"
    by auto
  from Decode_Clear_keep_config [of "[?h]" initialized] s1
  have c1: "config s1 = config initialized" by blast
  from Decode_Clear_keep_config [of "[?h, ?b]" initialized] s2
  have c2: "config s2 = config initialized" by blast
  from Decode_Clear_keep_config [of "[]" initialized]
    well_sized_initialized counts_fit_initialized
  obtain s3 where s3: "Clear initialized = Some s3" by auto
  from Decode_Clear_keep_config [of "[]" initialized] s3
  have c3: "config s3 = config initialized" by blast
  from well_sized_initialized counts_fit_initialized a c s1 s2 s3 c1 c2 c3
  show ?thesis by auto
qed

subsection \<open>C10: what Decode leaves behind when it throws\<close>

text \<open>
  C10. When \<open>Decode\<close> throws the exception for an unsupported plane, the writes for the
  hits before the offending one are in the store: every slot addressed by an earlier
  hit holds the samples of the last earlier hit that addresses it. Nothing is rolled
  back.
\<close>

theorem Decode_not_atomic:
  assumes "well_sized s" and "\<forall>h' \<in> set pre. within_capacity h'"
    and "fPlane h \<noteq> 1" and "fPlane h \<noteq> 2"
  shows "\<exists>s'. Decode (pre @ h # post) s = Thrown (out_of_range plane_message) s' \<and>
           (\<forall>i h'. last_hit 1 i pre = Some h' \<longrightarrow> adc_slot s' i = adc_samples h') \<and>
           (\<forall>i h'. last_hit 2 i pre = Some h' \<longrightarrow> tdc_slot s' i = tdc_samples h')"
proof -
  from Decode_stops [OF assms, of post]
  obtain s' where s':
    "Decode (pre @ h # post) s = Thrown (out_of_range plane_message) s'"
    "\<forall>i < fMaxAdcChannels. adc_slot s' i =
       (case last_hit 1 i pre of None \<Rightarrow> adc_slot s i | Some h \<Rightarrow> adc_samples h)"
    "\<forall>i < fMaxTdcChannels. tdc_slot s' i =
       (case last_hit 2 i pre of None \<Rightarrow> tdc_slot s i | Some h \<Rightarrow> tdc_samples h)"
    by blast
  have adc: "adc_slot s' i = adc_samples h'" if l: "last_hit 1 i pre = Some h'" for i h'
  proof -
    from last_hit_Some [OF l] assms(2) have "within_capacity h'" "addresses h' 1 i" by auto
    then have "i < fMaxAdcChannels" by (rule addressed_within)
    with s'(2) l show ?thesis by simp
  qed
  have tdc: "tdc_slot s' i = tdc_samples h'" if l: "last_hit 2 i pre = Some h'" for i h'
  proof -
    from last_hit_Some [OF l] assms(2) have "within_capacity h'" "addresses h' 2 i" by auto
    then have "i < fMaxTdcChannels" by (rule addressed_within)
    with s'(3) l show ?thesis by simp
  qed
  from s'(1) adc tdc show ?thesis by blast
qed

text \<open>
  C10 at two hits followed by a hit of plane 0: the slots of channel 1, zero before the
  call, hold the samples afterwards.
\<close>

theorem Decode_not_atomic_witness:
  "well_sized (configured 2 1 [''x'', ''y''] [''z'']) \<and>
   within_capacity (hit 1 1 3 (1/2) 2 0 0) \<and> within_capacity (hit 2 1 0 0 0 7 1) \<and>
   fPlane (hit 0 1 9 9 9 9 9) \<noteq> 1 \<and> fPlane (hit 0 1 9 9 9 9 9) \<noteq> 2 \<and>
   adc_slot (configured 2 1 [''x'', ''y''] [''z'']) 0 = (0, 0, 0) \<and>
   tdc_slot (configured 2 1 [''x'', ''y''] [''z'']) 0 = (0, 0) \<and>
   (\<exists>s'. Decode ([hit 1 1 3 (1/2) 2 0 0, hit 2 1 0 0 0 7 1] @ hit 0 1 9 9 9 9 9 # [])
            (configured 2 1 [''x'', ''y''] [''z'']) = Thrown (out_of_range plane_message) s' \<and>
      adc_slot s' 0 = (3, 1/2, 2) \<and> tdc_slot s' 0 = (7, 1))"
proof -
  let ?S = "configured 2 1 [''x'', ''y''] [''z'']"
  let ?pre = "[hit 1 1 3 (1/2) 2 0 0, hit 2 1 0 0 0 7 1]"
  have h1: "well_sized ?S" by (rule well_sized_configured)
  have h0: "within_capacity (hit 1 1 3 (1/2) 2 0 0)" "within_capacity (hit 2 1 0 0 0 7 1)"
    by (simp_all add: within_capacity_def hit_def fMaxAdcChannels_def fMaxTdcChannels_def)
  then have h2: "\<forall>h' \<in> set ?pre. within_capacity h'" by simp
  have h3: "fPlane (hit 0 1 9 9 9 9 9) \<noteq> 1" and h4: "fPlane (hit 0 1 9 9 9 9 9) \<noteq> 2"
    by (simp_all add: hit_def)
  have before: "adc_slot ?S 0 = (0, 0, 0)" "tdc_slot ?S 0 = (0, 0)"
    by (simp_all add: adc_slot_def tdc_slot_def configured_def THcTrigDet_new_def fMaxAdcChannels_def
        fMaxTdcChannels_def)
  have l1: "last_hit 1 0 ?pre = Some (hit 1 1 3 (1/2) 2 0 0)"
    and l2: "last_hit 2 0 ?pre = Some (hit 2 1 0 0 0 7 1)"
    by (simp_all add: addresses_def hit_def)
  from Decode_not_atomic [OF h1 h2 h3 h4, of "[]"]
  obtain s' where s':
    "Decode (?pre @ hit 0 1 9 9 9 9 9 # []) ?S = Thrown (out_of_range plane_message) s'"
    "\<forall>i h'. last_hit 1 i ?pre = Some h' \<longrightarrow> adc_slot s' i = adc_samples h'"
    "\<forall>i h'. last_hit 2 i ?pre = Some h' \<longrightarrow> tdc_slot s' i = tdc_samples h'"
    by blast
  from s'(2) l1 have "adc_slot s' 0 = adc_samples (hit 1 1 3 (1/2) 2 0 0)" by blast
  then have a: "adc_slot s' 0 = (3, 1/2, 2)" by (simp add: adc_samples_def hit_def)
  from s'(3) l2 have "tdc_slot s' 0 = tdc_samples (hit 2 1 0 0 0 7 1)" by blast
  then have t: "tdc_slot s' 0 = (7, 1)" by (simp add: tdc_samples_def hit_def)
  from h1 h0 h3 h4 before s'(1) a t show ?thesis by blast
qed

end
